theory Spec2Isabelle
  imports Complex_Main
begin

section \<open>Elements and their boxes\<close>

text \<open>
  Coordinates are JavaScript numbers; they are modelled as reals, so the development
  covers finite numbers only. A property that is \<open>undefined\<close> in the source is \<open>None\<close>.
\<close>

text \<open>\<open>layoutBox\<close>: the absolute box that \<open>layoutChildren\<close> writes.\<close>

record layoutBox =
  absoluteX :: real
  absoluteY :: real
  lb_width :: real
  lb_height :: real

text \<open>
  \<open>realLayoutBox\<close>: the box in physical pixels that hit-testing reads. The Layout's own
  box is \<open>{realX, realY}\<close> with no \<open>width\<close> and \<open>height\<close>.
\<close>

record realLayoutBox =
  realX :: real
  realY :: real
  rb_width :: "real option"
  rb_height :: "real option"

text \<open>The fields of \<open>Element\<close> that the Layout reads: id, style.width, style.height, the boxes, children.\<close>

datatype element =
  Element (eid: nat) (style_width: "real option") (style_height: "real option")
    (layoutBox: layoutBox) (realLayoutBox: realLayoutBox) (children: "element list")

section \<open>Hit-testing: \<open>getChildByPos\<close>\<close>

text \<open>
  The test of lines 238-239. A sum with an \<open>undefined\<close> width is NaN, and every
  comparison with NaN is false.
\<close>

definition box_contains :: "realLayoutBox \<Rightarrow> real \<Rightarrow> real \<Rightarrow> bool" where
  "box_contains box x y =
     (case (rb_width box, rb_height box) of
        (Some w, Some h) \<Rightarrow>
          (realX box \<le> x \<and> x \<le> realX box + w) \<and> (realY box \<le> y \<and> y \<le> realY box + h)
      | _ \<Rightarrow> False)"

text \<open>
  \<open>getChildByPos(tree, x, y, itemList)\<close>: the loop over \<open>tree.children\<close> is a fold, in
  index order; \<open>itemList.push\<close> appends. The accumulated list is returned.
\<close>

fun getChildByPos :: "element \<Rightarrow> real \<Rightarrow> real \<Rightarrow> element list \<Rightarrow> element list" where
  "getChildByPos (Element i sw sh lb rb cs) x y itemList =
     fold (\<lambda>child acc.
             if box_contains (realLayoutBox child) x y
             then (if children child \<noteq> []
                   then getChildByPos child x y (acc @ [child])
                   else acc @ [child])
             else acc)
          cs itemList"

section \<open>Touch events and the Layout\<close>

text \<open>A touch point, or the mouse event itself: \<open>pageX\<close>, \<open>pageY\<close>, \<open>timeStamp\<close>.\<close>

record touch =
  pageX :: "real option"
  pageY :: "real option"
  timeStamp :: "real option"

text \<open>
  An incoming event \<open>e\<close>: \<open>e.touches\<close> and \<open>e.changedTouches\<close> (an absent array and an
  empty one behave alike at line 250), and the event's own \<open>pageX\<close>, \<open>pageY\<close>, \<open>timeStamp\<close>.
\<close>

record event =
  touches :: "touch list"
  changedTouches :: "touch list"
  own :: touch

text \<open>\<open>this.touchMsg\<close>, initially \<open>{}\<close>: the slots \<open>touchstart\<close> and \<open>touchend\<close>.\<close>

record touchMsg =
  touchstart :: "touch option"
  touchend :: "touch option"

datatype event_name = Touchstart | Touchmove | Touchend | Touchcancel | Click

text \<open>The object an event is emitted on: the Layout itself or one of its elements.\<close>

datatype target = OnLayout | OnElement element

text \<open>
  A JavaScript number that need not be finite: the scale that \<open>reflow\<close> computes is
  one. Rounding and the sign of zero are not modelled.
\<close>

datatype jsnum = Num real | Infinity | NegInfinity | NaN

text \<open>Calls to the collaborators of the Layout (css-layout, common/vd, common/util, tween.js), in order.\<close>

datatype call =
  TweenUpdate
  | ComputeLayout
  | ConsoleError
  | LayoutChildren
  | UpdateRealLayout jsnum
  | ClearCanvas
  | RenderChildren
  | RepaintChildren

text \<open>
  The Layout singleton. \<open>elem\<close> is its \<open>Element\<close> part (children, realLayoutBox);
  \<open>calls\<close> and \<open>emitted\<close> record its effects on the outside, oldest first.
\<close>

record layout =
  elem :: element
  renderport_width :: "real option"
  renderport_height :: "real option"
  viewport_width :: "real option"
  viewport_height :: "real option"
  viewport_x :: "real option"
  viewport_y :: "real option"
  hasViewPortSet :: bool
  isDirty :: bool
  isNeedRepaint :: bool
  touchMsg :: touchMsg
  calls :: "call list"
  emitted :: "(target \<times> event_name) list"

text \<open>\<open>!v\<close> for a number-valued property: true for \<open>undefined\<close> and for \<open>0\<close>.\<close>

definition js_not :: "real option \<Rightarrow> bool" where
  "js_not v = (case v of None \<Rightarrow> True | Some n \<Rightarrow> n = 0)"

text \<open>Line 250: \<open>(e.touches && e.touches[0]) || (e.changedTouches && e.changedTouches[0]) || e\<close>.\<close>

definition first_touch :: "event \<Rightarrow> touch" where
  "first_touch e =
     (case touches e of t # _ \<Rightarrow> t
      | [] \<Rightarrow> (case changedTouches e of t # _ \<Rightarrow> t | [] \<Rightarrow> own e))"

text \<open>Lines 255-257: a touch without a time stamp takes the event's.\<close>

definition stamped :: "event \<Rightarrow> touch \<Rightarrow> touch" where
  "stamped e t = (if js_not (timeStamp t) then t\<lparr>timeStamp := timeStamp (own e)\<rparr> else t)"

text \<open>Lines 259-268: the hit list, the Layout when it is empty, and its last element.\<close>

definition hit_target :: "layout \<Rightarrow> real \<Rightarrow> real \<Rightarrow> target" where
  "hit_target this x y =
     (let list = getChildByPos (elem this) x y []
      in if list = [] then OnLayout else OnElement (last list))"

text \<open>Lines 271-273: only \<open>touchstart\<close> and \<open>touchend\<close> are recorded.\<close>

definition record_touch :: "event_name \<Rightarrow> touch \<Rightarrow> touchMsg \<Rightarrow> touchMsg" where
  "record_touch eventName t msg =
     (if eventName = Touchstart then msg\<lparr>touchstart := Some t\<rparr>
      else if eventName = Touchend then msg\<lparr>touchend := Some t\<rparr>
      else msg)"

text \<open>
  \<open>eventHandler(eventName)\<close> applied to an event. \<open>isClick\<close> of common/util is a
  parameter: the predicate on \<open>touchMsg\<close> that decides a click.
\<close>

definition eventHandler :: "(touchMsg \<Rightarrow> bool) \<Rightarrow> event_name \<Rightarrow> event \<Rightarrow> layout \<Rightarrow> layout" where
  "eventHandler isClick eventName e this =
     (let t0 = first_touch e in
      if js_not (pageX t0) \<or> js_not (pageY t0) then this
      else
        (case (pageX t0, pageY t0) of
           (Some x, Some y) \<Rightarrow>
             (let t = stamped e t0;
                  item = hit_target this x y;
                  this1 = this\<lparr>emitted := emitted this @ [(item, eventName)]\<rparr>;
                  this2 = this1\<lparr>touchMsg := record_touch eventName t (touchMsg this1)\<rparr>
              in if eventName = Touchend \<and> isClick (touchMsg this2)
                 then this2\<lparr>emitted := emitted this2 @ [(item, Click)]\<rparr>
                 else this2)
         | _ \<Rightarrow> this))"

text \<open>
  Modelled from the spec: \<open>isClick\<close> of common/util.js, which is not among the sources.
  A click is a recorded \<open>touchstart\<close> and \<open>touchend\<close> within a configured distance
  \<open>maxDist\<close> and a configured elapsed time \<open>maxTime\<close> of each other.
\<close>

definition isClick :: "real \<Rightarrow> real \<Rightarrow> touchMsg \<Rightarrow> bool" where
  "isClick maxDist maxTime msg =
     (case (touchstart msg, touchend msg) of
        (Some s, Some e) \<Rightarrow>
          (case (pageX s, pageY s, timeStamp s) of
             (Some sx, Some sy, Some st) \<Rightarrow>
               (case (pageX e, pageY e, timeStamp e) of
                  (Some ex, Some ey, Some et) \<Rightarrow>
                    (ex - sx)\<^sup>2 + (ey - sy)\<^sup>2 \<le> maxDist\<^sup>2 \<and> et - st \<le> maxTime
                | _ \<Rightarrow> False)
           | _ \<Rightarrow> False)
      | _ \<Rightarrow> False)"

text \<open>
  Every strict descendant of a tree in document order (a node before its children, siblings
  in index order), each with its ancestors strictly below the tree, outermost first.
\<close>

fun descendants :: "element list \<Rightarrow> element \<Rightarrow> (element list \<times> element) list" where
  "descendants anc (Element i sw sh lb rb cs) =
     concat (map (\<lambda>c. (anc, c) # descendants (anc @ [c]) c) cs)"

text \<open>A node is on a hit chain when its box and the box of each of these ancestors contain the point.\<close>

definition on_hit_chain :: "real \<Rightarrow> real \<Rightarrow> element list \<times> element \<Rightarrow> bool" where
  "on_hit_chain x y p =
     (box_contains (realLayoutBox (snd p)) x y
      \<and> list_all (\<lambda>a. box_contains (realLayoutBox a) x y) (fst p))"

section \<open>Viewport, reflow, repaint and the ticker\<close>

text \<open>The argument of \<open>updateViewPort\<close>; a missing property is \<open>None\<close>.\<close>

record viewBox =
  box_width :: "real option"
  box_height :: "real option"
  box_x :: "real option"
  box_y :: "real option"

text \<open>\<open>v || 0\<close> for a number-valued property.\<close>

definition js_or0 :: "real option \<Rightarrow> real" where
  "js_or0 v = (case v of None \<Rightarrow> 0 | Some n \<Rightarrow> n)"

fun set_realLayoutBox :: "realLayoutBox \<Rightarrow> element \<Rightarrow> element" where
  "set_realLayoutBox rb' (Element i sw sh lb rb cs) = Element i sw sh lb rb' cs"

fun set_children :: "element list \<Rightarrow> element \<Rightarrow> element" where
  "set_children cs' (Element i sw sh lb rb cs) = Element i sw sh lb rb cs'"

text \<open>\<open>updateViewPort(box)\<close>, lines 104-116.\<close>

definition updateViewPort :: "viewBox \<Rightarrow> layout \<Rightarrow> layout" where
  "updateViewPort box this =
     this\<lparr>viewport_width := Some (js_or0 (box_width box)),
          viewport_height := Some (js_or0 (box_height box)),
          viewport_x := Some (js_or0 (box_x box)),
          viewport_y := Some (js_or0 (box_y box)),
          elem := set_realLayoutBox
                    \<lparr>realX = js_or0 (box_x box), realY = js_or0 (box_y box),
                     rb_width = None, rb_height = None\<rparr> (elem this),
          hasViewPortSet := True\<rparr>"

text \<open>How \<open>reflow\<close> and \<open>draw\<close> can end without a result: a \<open>TypeError\<close>.\<close>

datatype error = TypeError

text \<open>
  \<open>a / b\<close> for two number-valued properties: NaN when either is \<open>undefined\<close>,
  and a division by zero is Infinity, -Infinity or, for \<open>0 / 0\<close>, NaN.
\<close>

definition js_div :: "real option \<Rightarrow> real option \<Rightarrow> jsnum" where
  "js_div a b =
     (case (a, b) of
        (Some n, Some d) \<Rightarrow>
          (if d \<noteq> 0 then Num (n / d)
           else if 0 < n then Infinity
           else if n < 0 then NegInfinity
           else NaN)
      | _ \<Rightarrow> NaN)"

definition called :: "call list \<Rightarrow> layout \<Rightarrow> layout" where
  "called cs this = this\<lparr>calls := calls this @ cs\<rparr>"

text \<open>
  \<open>reflow()\<close>, lines 153-189. Its collaborators are parameters: \<open>computeLayout\<close>
  (css-layout) rewrites the root element, \<open>layoutChildren\<close> (common/vd) the children of
  the Layout, and \<open>updateRealLayout\<close> (common/vd) the Layout's element tree, given the
  scale. Without a root element, reading \<open>rootEle.style\<close> is a \<open>TypeError\<close>; with
  one, \<open>reflow\<close> runs to its end whatever the scale is.
\<close>

definition reflow :: "(element \<Rightarrow> element) \<Rightarrow> (element list \<Rightarrow> element list) \<Rightarrow> (element \<Rightarrow> jsnum \<Rightarrow> element) \<Rightarrow> layout \<Rightarrow> error + layout" where
  "reflow computeLayout layoutChildren updateRealLayout this =
     (case children (elem this) of
        [] \<Rightarrow> Inl TypeError
      | c0 # rest \<Rightarrow>
          (let rootEle = computeLayout c0;
               this1 = called [ComputeLayout] (this\<lparr>elem := set_children (rootEle # rest) (elem this)\<rparr>);
               this2 = (if style_width rootEle = None \<or> style_height rootEle = None
                        then called [ConsoleError] this1
                        else this1\<lparr>renderport_width := style_width rootEle,
                                   renderport_height := style_height rootEle\<rparr>);
               this3 = called [LayoutChildren]
                         (this2\<lparr>elem := set_children (layoutChildren (children (elem this2))) (elem this2)\<rparr>);
               scale = js_div (viewport_width this3) (renderport_width this3)
           in Inr ((called [UpdateRealLayout scale, ClearCanvas, RenderChildren]
                      (this3\<lparr>elem := updateRealLayout (elem this3) scale\<rparr>))
                   \<lparr>isDirty := False\<rparr>)))"

text \<open>\<open>repaint()\<close>, lines 220-225.\<close>

definition repaint :: "layout \<Rightarrow> layout" where
  "repaint this = called [RepaintChildren] ((called [ClearCanvas] this)\<lparr>isNeedRepaint := False\<rparr>)"

text \<open>
  \<open>TWEEN.update()\<close> is a parameter: running animations rewrite the elements and may set
  either flag, through the elements' setters.
\<close>

type_synonym tween = "element list \<times> bool \<times> bool \<Rightarrow> element list \<times> bool \<times> bool"

definition tween_update :: "tween \<Rightarrow> layout \<Rightarrow> layout" where
  "tween_update tw this =
     (case tw (children (elem this), isDirty this, isNeedRepaint this) of
        (cs, d, r) \<Rightarrow>
          called [TweenUpdate]
            (this\<lparr>elem := set_children cs (elem this), isDirty := d, isNeedRepaint := r\<rparr>))"

text \<open>\<open>tickerFunc\<close>, lines 79-86.\<close>

definition tickerFunc :: "tween \<Rightarrow> (element \<Rightarrow> element) \<Rightarrow> (element list \<Rightarrow> element list) \<Rightarrow> (element \<Rightarrow> jsnum \<Rightarrow> element) \<Rightarrow> layout \<Rightarrow> error + layout" where
  "tickerFunc tw computeLayout layoutChildren updateRealLayout this =
     (let this1 = tween_update tw this
      in if isDirty this1 then reflow computeLayout layoutChildren updateRealLayout this1
         else if isNeedRepaint this1 then Inr (repaint this1)
         else Inr this1)"

text \<open>The calls a tick added to the record of calls.\<close>

definition new_calls :: "layout \<Rightarrow> layout \<Rightarrow> call list" where
  "new_calls before after = drop (length (calls before)) (calls after)"

section \<open>Mutations and the flags\<close>

text \<open>The listener of lines 65-67, the only one the Layout registers: \<open>repaint\<close> sets \<open>isNeedRepaint\<close>.\<close>

definition layout_on :: "string \<Rightarrow> layout \<Rightarrow> layout" where
  "layout_on name this = (if name = ''repaint'' then this\<lparr>isNeedRepaint := True\<rparr> else this)"

text \<open>An Image node of components/image.js: \<open>imgsrc\<close> and the loaded \<open>img\<close>.\<close>

record image =
  imgsrc :: string
  img :: "string option"

text \<open>
  The \<open>src\<close> setter, lines 27-35: a new value is stored and a load is started (the
  second component: the source requested from the image manager), the same value does nothing.
\<close>

definition set_src :: "string \<Rightarrow> image \<Rightarrow> image \<times> string option" where
  "set_src newValue this =
     (if newValue \<noteq> imgsrc this then (this\<lparr>imgsrc := newValue\<rparr>, Some newValue)
      else (this, None))"

text \<open>The callback of lines 30-33, run when the load is done: it stores the image and emits \<open>repaint\<close>.\<close>

definition src_loaded :: "string \<Rightarrow> image \<Rightarrow> image \<times> string list" where
  "src_loaded loaded this = (this\<lparr>img := Some loaded\<rparr>, [''repaint''])"

text \<open>
  Modelled from the spec: \<open>emit\<close> of components/elements.js, which is not among the
  sources. An event emitted by a node of the tree reaches the listeners of the Layout.
\<close>

definition element_emit :: "string list \<Rightarrow> layout \<Rightarrow> layout" where
  "element_emit names this = fold layout_on names this"

text \<open>
  Modelled from the spec: the style setters of components/elements.js, which are not
  among the sources. A mutation of geometry (size, position, adding or removing a child)
  rewrites the elements and sets \<open>needsLayout\<close>, the flag \<open>isDirty\<close>.
\<close>

definition geometry_mutation :: "(element list \<Rightarrow> element list) \<Rightarrow> layout \<Rightarrow> layout" where
  "geometry_mutation f this =
     this\<lparr>elem := set_children (f (children (elem this))) (elem this), isDirty := True\<rparr>"

section \<open>The render context manager\<close>

text \<open>
  A canvas of the host: its identity, its size, and whether its buffers have been cleared
  since something was last drawn on it.
\<close>

record canvas =
  canvas_id :: nat
  canvas_width :: real
  canvas_height :: real
  cleared :: bool

text \<open>A glRect is an object compared by identity; it is modelled by its id.\<close>

type_synonym glRect = nat

text \<open>A node as the manager reads it: its identity, \<open>node.glRect\<close>, \<open>node.children\<close>.\<close>

datatype rnode = RNode (nid: nat) (glRect: "glRect option") (rchildren: "rnode list")

text \<open>\<open>this.layout\<close> as the manager reads it: \<open>layout.scrollview\<close>, absent without a scroll view.\<close>

record scroll_layout =
  scrollview :: "rnode option"

datatype surface = MainSurface | ScrollSurface

text \<open>Calls on the GL contexts and the renderer, in order.\<close>

datatype rcall =
  SetupGl surface
  | Viewport surface
  | ClearBuffers surface
  | ResetGl surface
  | Repaint surface "glRect list" "glRect list option"

record manager =
  glRects :: "glRect list"
  scrollGlrects :: "glRect list option"
  m_width :: real
  m_height :: real
  m_layout :: "scroll_layout option"
  scrollCanvas :: "canvas option"
  glTexture :: "canvas option"
  hasSetup :: bool
  hasScroll :: bool
  rcalls :: "rcall list"

text \<open>\<open>Array.prototype.indexOf\<close>: the first index of the element, \<open>-1\<close> without one.\<close>

fun indexOf :: "'a list \<Rightarrow> 'a \<Rightarrow> int" where
  "indexOf [] x = - 1"
| "indexOf (y # ys) x =
     (if x = y then 0 else (if indexOf ys x < 0 then - 1 else indexOf ys x + 1))"

text \<open>
  \<open>Array.prototype.splice(index, 1)\<close>: a negative index counts from the end, so
  \<open>splice(-1, 1)\<close> removes the last element.
\<close>

definition splice1 :: "int \<Rightarrow> 'a list \<Rightarrow> 'a list" where
  "splice1 index xs =
     (let len = int (length xs);
          start = (if index < 0 then max (len + index) 0 else min index len)
      in take (nat start) xs @ drop (nat start + 1) xs)"

text \<open>
  \<open>getChildrenGlRects(node, res)\<close>, lines 102-114, on the pair of \<open>this.glRects\<close>
  and \<open>res\<close>; \<open>sv\<close> is the identity of \<open>this.layout.scrollview\<close>.
\<close>

fun getChildrenGlRects :: "nat \<Rightarrow> rnode \<Rightarrow> glRect list \<times> glRect list \<Rightarrow> glRect list \<times> glRect list" where
  "getChildrenGlRects sv (RNode i g cs) st =
     fold (\<lambda>child acc. getChildrenGlRects sv child acc) cs
       (case g of
          Some r \<Rightarrow> (if i \<noteq> sv then (splice1 (indexOf (fst st) r) (fst st), snd st @ [r]) else st)
        | None \<Rightarrow> st)"

definition rcalled :: "rcall list \<Rightarrow> manager \<Rightarrow> manager" where
  "rcalled cs this = this\<lparr>rcalls := rcalls this @ cs\<rparr>"

text \<open>
  \<open>draw(needInit)\<close>, lines 119-150. Reading \<open>this.layout.scrollview\<close> while
  \<open>this.layout\<close> is still \<open>null\<close> is a \<open>TypeError\<close>.
\<close>

definition draw :: "bool \<Rightarrow> manager \<Rightarrow> error + manager" where
  "draw needInit this =
     (let finish = (\<lambda>m. Inr (rcalled [ResetGl MainSurface,
                                      Repaint MainSurface (glRects m) (scrollGlrects m)] m))
      in if \<not> hasSetup this \<or> needInit then
           (let this1 = rcalled [SetupGl MainSurface, Viewport MainSurface] (this\<lparr>hasSetup := True\<rparr>)
            in case m_layout this1 of
                 None \<Rightarrow> Inl TypeError
               | Some lay \<Rightarrow>
                   (case scrollview lay of
                      None \<Rightarrow> finish this1
                    | Some sv \<Rightarrow>
                        (case getChildrenGlRects (nid sv) sv (glRects this1, []) of
                           (rects, res) \<Rightarrow>
                             finish (this1\<lparr>hasScroll := True, glRects := rects,
                                           scrollGlrects := Some res\<rparr>))))
         else finish this)"

text \<open>The glRects of the strict descendants of the scroll view, in document order.\<close>

fun scroll_rects :: "nat \<Rightarrow> rnode \<Rightarrow> glRect list" where
  "scroll_rects sv (RNode i g cs) =
     (case g of Some r \<Rightarrow> (if i \<noteq> sv then [r] else []) | None \<Rightarrow> [])
     @ concat (map (scroll_rects sv) cs)"

text \<open>The identities of a node and of everything below it.\<close>

fun node_ids :: "rnode \<Rightarrow> nat list" where
  "node_ids (RNode i g cs) = i # concat (map node_ids cs)"

text \<open>The glRects owned by a node and by everything below it, in document order.\<close>

fun subtree_rects :: "rnode \<Rightarrow> glRect list" where
  "subtree_rects (RNode i g cs) =
     (case g of Some r \<Rightarrow> [r] | None \<Rightarrow> []) @ concat (map subtree_rects cs)"

text \<open>The glRects owned by the strict descendants of a node.\<close>

definition descendant_rects :: "rnode \<Rightarrow> glRect list" where
  "descendant_rects node = concat (map subtree_rects (rchildren node))"

text \<open>Whether a call sets up, clears or draws on the scroll surface.\<close>

fun on_scroll_surface :: "rcall \<Rightarrow> bool" where
  "on_scroll_surface (SetupGl s) = (s = ScrollSurface)"
| "on_scroll_surface (Viewport s) = (s = ScrollSurface)"
| "on_scroll_surface (ClearBuffers s) = (s = ScrollSurface)"
| "on_scroll_surface (ResetGl s) = (s = ScrollSurface)"
| "on_scroll_surface (Repaint s rs ex) = (s = ScrollSurface)"

text \<open>
  Whether the manager has used the offscreen surface: a call on the scroll surface, or the
  scroll canvas installed as the texture of the scroll view's glRect.
\<close>

definition offscreen :: "manager \<Rightarrow> bool" where
  "offscreen this = (list_ex on_scroll_surface (rcalls this) \<or> glTexture this \<noteq> None)"

subsection \<open>The shared canvas pool\<close>

text \<open>
  \<open>canvasPool\<close>, the module-level array, last element on top. \<open>release\<close> can push
  \<open>null\<close>, which is \<open>None\<close> here.
\<close>

type_synonym canvasPool = "canvas option list"

text \<open>
  \<open>canvasPool.pop() || createCanvas()\<close>: the popped canvas, or the new canvas of the host
  when the pool is empty or \<open>null\<close> was on top.
\<close>

definition pop_or_create :: "canvas \<Rightarrow> canvasPool \<Rightarrow> canvas \<times> canvasPool" where
  "pop_or_create created pool =
     (if pool = [] then (created, [])
      else (case last pool of Some c \<Rightarrow> (c, butlast pool) | None \<Rightarrow> (created, butlast pool)))"

text \<open>The constructor, lines 32-63, on the pool; \<open>created\<close> is what \<open>createCanvas()\<close> would return.\<close>

definition RenderContextManager :: "canvas \<Rightarrow> canvasPool \<Rightarrow> manager \<times> canvasPool" where
  "RenderContextManager created pool =
     (case pop_or_create created pool of
        (c, pool') \<Rightarrow>
          (\<lparr>glRects = [], scrollGlrects = None, m_width = 0, m_height = 0, m_layout = None,
            scrollCanvas = Some c, glTexture = None, hasSetup = False, hasScroll = False,
            rcalls = []\<rparr>, pool'))"

text \<open>\<open>release()\<close>, lines 95-100.\<close>

definition release :: "manager \<times> canvasPool \<Rightarrow> manager \<times> canvasPool" where
  "release w = (case w of (this, pool) \<Rightarrow> (this\<lparr>scrollCanvas := None\<rparr>, pool @ [scrollCanvas this]))"

text \<open>
  \<open>setupScrollGl()\<close>, lines 65-80: the one place where the scroll canvas is sized and
  cleared. Nothing in the manager calls it; the call in \<open>draw\<close> is commented out.
\<close>

definition setupScrollGl :: "canvas \<Rightarrow> manager \<times> canvasPool \<Rightarrow> error + manager \<times> canvasPool" where
  "setupScrollGl created w =
     (case w of (this, pool) \<Rightarrow>
        (let (c, pool') = (case scrollCanvas this of
                             None \<Rightarrow> pop_or_create created pool
                           | Some c0 \<Rightarrow> (c0, pool));
             c' = c\<lparr>canvas_height := m_height this, canvas_width := m_width this, cleared := True\<rparr>;
             this1 = rcalled [SetupGl ScrollSurface, Viewport ScrollSurface, ClearBuffers ScrollSurface]
                       (this\<lparr>scrollCanvas := Some c'\<rparr>)
         in case m_layout this1 of
              None \<Rightarrow> Inl TypeError
            | Some lay \<Rightarrow>
                (case scrollview lay of
                   None \<Rightarrow> Inl TypeError
                 | Some sv \<Rightarrow>
                     (case glRect sv of
                        None \<Rightarrow> Inl TypeError
                      | Some r \<Rightarrow> Inr (this1\<lparr>glTexture := Some c'\<rparr>, pool')))))"

text \<open>The number of canvases in the pool, \<open>null\<close> entries not counted.\<close>

definition pooled :: "canvasPool \<Rightarrow> nat" where
  "pooled pool = length (filter (\<lambda>c. c \<noteq> None) pool)"

section \<open>Example trees and events\<close>

definition box0 :: layoutBox where
  "box0 = \<lparr>absoluteX = 0, absoluteY = 0, lb_width = 0, lb_height = 0\<rparr>"

definition real_box :: "real \<Rightarrow> real \<Rightarrow> real \<Rightarrow> real \<Rightarrow> realLayoutBox" where
  "real_box x y w h = \<lparr>realX = x, realY = y, rb_width = Some w, rb_height = Some h\<rparr>"

text \<open>A Layout holding one tree as its only child, as \<open>init\<close> leaves it, with the viewport at the origin.\<close>

definition layout_of :: "element \<Rightarrow> layout" where
  "layout_of tree =
     \<lparr>elem = Element 0 (Some 0) (Some 0) box0
              \<lparr>realX = 0, realY = 0, rb_width = None, rb_height = None\<rparr> [tree],
      renderport_width = None, renderport_height = None,
      viewport_width = None, viewport_height = None, viewport_x = None, viewport_y = None,
      hasViewPortSet = False, isDirty = False, isNeedRepaint = False,
      touchMsg = \<lparr>touchstart = None, touchend = None\<rparr>,
      calls = [], emitted = []\<rparr>"

text \<open>Child A at real box (0, 0, 100, 100) holding grandchild B at real box (10, 10, 20, 20).\<close>

definition node_B :: element where
  "node_B = Element 2 None None box0 (real_box 10 10 20 20) []"

definition node_A :: element where
  "node_A = Element 1 (Some 100) (Some 100) box0 (real_box 0 0 100 100) [node_B]"

text \<open>A child at real box (0, 0, 10, 10) whose own child lies outside it, at (50, 50, 10, 10).\<close>

definition outside_B :: element where
  "outside_B = Element 2 None None box0 (real_box 50 50 10 10) []"

definition small_A :: element where
  "small_A = Element 1 (Some 10) (Some 10) box0 (real_box 0 0 10 10) [outside_B]"

text \<open>An event with one touch at \<open>(x, y)\<close> and time \<open>t\<close>.\<close>

definition touch_at :: "real \<Rightarrow> real \<Rightarrow> real \<Rightarrow> touch" where
  "touch_at x y t = \<lparr>pageX = Some x, pageY = Some y, timeStamp = Some t\<rparr>"

definition touch_event :: "real \<Rightarrow> real \<Rightarrow> real \<Rightarrow> event" where
  "touch_event x y t =
     \<lparr>touches = [touch_at x y t], changedTouches = [touch_at x y t],
      own = \<lparr>pageX = None, pageY = None, timeStamp = Some t\<rparr>\<rparr>"

text \<open>
  A tree of three levels: a root of style 100 by 100 with absolute box (0, 0, 100, 100), its
  child at absolute offset (10, 10) and size 20 by 20, and a grandchild at absolute offset
  (12, 14) and size 4 by 4; every real-pixel box zero.
\<close>

definition abs_box :: "real \<Rightarrow> real \<Rightarrow> real \<Rightarrow> real \<Rightarrow> layoutBox" where
  "abs_box x y w h = \<lparr>absoluteX = x, absoluteY = y, lb_width = w, lb_height = h\<rparr>"

definition laid_C :: element where
  "laid_C = Element 3 None None (abs_box 12 14 4 4) (real_box 0 0 0 0) []"

definition laid_B :: element where
  "laid_B = Element 2 None None (abs_box 10 10 20 20) (real_box 0 0 0 0) [laid_C]"

definition laid_A :: element where
  "laid_A = Element 1 (Some 100) (Some 100) (abs_box 0 0 100 100) (real_box 0 0 0 0) [laid_B]"

text \<open>A viewport of 200 by 200 physical pixels at (5, 7).\<close>

definition view200 :: viewBox where
  "view200 = \<lparr>box_width = Some 200, box_height = Some 200, box_x = Some 5, box_y = Some 7\<rparr>"

text \<open>A scroll view with glRect 10 holding two items with glRects 11 and 12; the main set also has glRect 1.\<close>

definition scroll_node :: rnode where
  "scroll_node = RNode 5 (Some 10) [RNode 6 (Some 11) [], RNode 7 (Some 12) []]"

definition used_canvas :: canvas where
  "used_canvas = \<lparr>canvas_id = 1, canvas_width = 300, canvas_height = 150, cleared = False\<rparr>"

definition new_canvas :: canvas where
  "new_canvas = \<lparr>canvas_id = 2, canvas_width = 300, canvas_height = 150, cleared = True\<rparr>"

text \<open>A manager built on an empty pool, after layout: its glRects collected and \<open>layout\<close> set.\<close>

definition scroll_manager :: manager where
  "scroll_manager =
     (fst (RenderContextManager used_canvas []))
       \<lparr>glRects := [1, 10, 11, 12], m_layout := Some \<lparr>scrollview = Some scroll_node\<rparr>\<rparr>"

text \<open>
  A second manager, built on the pool after the first one was released, then laid out like
  the first.
\<close>

definition reused_manager :: manager where
  "reused_manager =
     (fst (RenderContextManager new_canvas (snd (release (scroll_manager, [])))))
       \<lparr>glRects := [1, 10, 11, 12], m_layout := Some \<lparr>scrollview = Some scroll_node\<rparr>\<rparr>"

text \<open>The two flags of a Layout: \<open>(isDirty, isNeedRepaint)\<close>.\<close>

definition flags :: "layout \<Rightarrow> bool \<times> bool" where
  "flags this = (isDirty this, isNeedRepaint this)"

text \<open>That tree in a Layout whose viewport has been set.\<close>

definition ready :: layout where
  "ready = updateViewPort view200 (layout_of laid_A)"

text \<open>A tick with no animation running.\<close>

definition keep :: tween where
  "keep s = s"

text \<open>A stand-in for \<open>updateRealLayout\<close> that leaves every box as it is.\<close>

definition same_boxes :: "element \<Rightarrow> jsnum \<Rightarrow> element" where
  "same_boxes element scale = element"

text \<open>A geometry mutation: every element of the list gets the style width 50.\<close>

fun set_style_width :: "real option \<Rightarrow> element \<Rightarrow> element" where
  "set_style_width w (Element i sw sh lb rb cs) = Element i w sh lb rb cs"

definition widen :: "element list \<Rightarrow> element list" where
  "widen cs = map (set_style_width (Some 50)) cs"

definition logo :: image where
  "logo = \<lparr>imgsrc = ''a.png'', img = Some ''a.png''\<rparr>"

section \<open>The event router\<close>

subsection \<open>Hit-testing follows the chain of hit ancestors\<close>

lemma descendants_prefix:
  "(a, n) \<in> set (descendants anc t) \<Longrightarrow> \<exists>r. a = anc @ r"
proof (induction t arbitrary: anc a n)
  case (Element i sw sh lb rb cs)
  from Element.prems obtain c where c: "c \<in> set cs"
    and mem: "(a, n) = (anc, c) \<or> (a, n) \<in> set (descendants (anc @ [c]) c)"
    by auto
  from mem show ?case
  proof
    assume "(a, n) = (anc, c)" then show ?thesis by simp
  next
    assume "(a, n) \<in> set (descendants (anc @ [c]) c)"
    from Element.IH[OF c this] show ?thesis by auto
  qed
qed

lemma filter_below_miss:
  assumes "\<not> box_contains (realLayoutBox c) x y"
  shows "filter (on_hit_chain x y) (descendants (anc @ [c]) c) = []"
proof -
  have "\<not> on_hit_chain x y p" if "p \<in> set (descendants (anc @ [c]) c)" for p
  proof -
    obtain a n where p: "p = (a, n)" by (cases p)
    with that descendants_prefix obtain r where "a = (anc @ [c]) @ r" by blast
    with assms p show ?thesis by (simp add: on_hit_chain_def)
  qed
  then show ?thesis by (simp add: filter_empty_conv)
qed

lemma descendants_leaf: "children c = [] \<Longrightarrow> descendants anc c = []"
  by (cases c) simp

lemma getChildByPos_chain:
  "list_all (\<lambda>a. box_contains (realLayoutBox a) x y) anc \<Longrightarrow>
   getChildByPos t x y acc = acc @ map snd (filter (on_hit_chain x y) (descendants anc t))"
proof (induction t arbitrary: anc acc)
  case (Element i sw sh lb rb cs)
  let ?step = "\<lambda>child acc.
             if box_contains (realLayoutBox child) x y
             then (if children child \<noteq> []
                   then getChildByPos child x y (acc @ [child])
                   else acc @ [child])
             else acc"
  have "set ds \<subseteq> set cs \<Longrightarrow> fold ?step ds acc =
        acc @ map snd (filter (on_hit_chain x y)
                (concat (map (\<lambda>c. (anc, c) # descendants (anc @ [c]) c) ds)))" for ds acc
  proof (induction ds arbitrary: acc)
    case Nil
    then show ?case by simp
  next
    case (Cons d ds)
    then have d: "d \<in> set cs" and ds: "set ds \<subseteq> set cs" by auto
    show ?case
    proof (cases "box_contains (realLayoutBox d) x y")
      case True
      then have chain: "list_all (\<lambda>a. box_contains (realLayoutBox a) x y) (anc @ [d])"
        using Element.prems by simp
      have here: "on_hit_chain x y (anc, d)"
        using True Element.prems by (simp add: on_hit_chain_def)
      have "?step d acc = (acc @ [d]) @ map snd (filter (on_hit_chain x y) (descendants (anc @ [d]) d))"
        using True Element.IH[OF d chain, of "acc @ [d]"] by (simp add: descendants_leaf)
      then show ?thesis using Cons.IH[OF ds] here by simp
    next
      case False
      then have "\<not> on_hit_chain x y (anc, d)" by (simp add: on_hit_chain_def)
      then show ?thesis using False Cons.IH[OF ds] filter_below_miss[OF False] by simp
    qed
  qed
  from this[of cs acc] show ?case by simp
qed

subsection \<open>What a dispatched event does\<close>

lemma eventHandler_dispatch:
  assumes "pageX (first_touch e) = Some x" "x \<noteq> 0" "pageY (first_touch e) = Some y" "y \<noteq> 0"
  shows "eventHandler P n e this =
           this\<lparr>emitted := emitted this @ (hit_target this x y, n) #
                   (if n = Touchend \<and> P (record_touch n (stamped e (first_touch e)) (touchMsg this))
                    then [(hit_target this x y, Click)] else []),
                touchMsg := record_touch n (stamped e (first_touch e)) (touchMsg this)\<rparr>"
  using assms by (auto simp add: eventHandler_def js_not_def Let_def)

lemma eventHandler_guard:
  assumes "js_not (pageX (first_touch e)) \<or> js_not (pageY (first_touch e))"
  shows "eventHandler P n e this = this"
  using assms by (simp add: eventHandler_def)



text \<open>
  C10: when the extracted touch point has a missing or zero \<open>pageX\<close> or \<open>pageY\<close>, the
  handler returns at once: the Layout is left as it was, so nothing is hit-tested, nothing
  is emitted and the gesture record is not updated.
\<close>

theorem guard_returns:
  assumes "pageX (first_touch e) = None \<or> pageX (first_touch e) = Some 0
           \<or> pageY (first_touch e) = None \<or> pageY (first_touch e) = Some 0"
  shows "eventHandler click eventName e this = this"
  using assms by (auto simp add: eventHandler_def js_not_def)

text \<open>A touch on the left edge of the screen, at (0, 40), is dropped.\<close>

theorem guard_returns_witness:
  "pageX (first_touch (touch_event 0 40 1000)) = Some 0 \<and>
   eventHandler (isClick 30 300) Touchstart (touch_event 0 40 1000) (layout_of node_A)
     = layout_of node_A"
  using guard_returns[of "touch_event 0 40 1000" "isClick 30 300" Touchstart "layout_of node_A"]
  by (simp add: first_touch_def touch_event_def touch_at_def)

lemma first_touch_event [simp]: "first_touch (touch_event x y t) = touch_at x y t"
  by (simp add: first_touch_def touch_event_def)

lemma stamped_touch_event [simp]: "t \<noteq> 0 \<Longrightarrow> stamped e (touch_at x y t) = touch_at x y t"
  by (simp add: stamped_def touch_at_def js_not_def)

lemma touch_at_sel [simp]:
  "pageX (touch_at x y t) = Some x" "pageY (touch_at x y t) = Some y"
  "timeStamp (touch_at x y t) = Some t"
  by (simp_all add: touch_at_def)

lemma hit_demo:
  "getChildByPos (elem (layout_of node_A)) 15 15 [] = [node_A, node_B]"
  "getChildByPos (elem (layout_of node_A)) 50 50 [] = [node_A]"
  "getChildByPos (elem (layout_of node_A)) 500 500 [] = []"
  by (simp_all add: layout_of_def node_A_def node_B_def real_box_def box_contains_def)

text \<open>
  C4, as amended: for an event that passes the coordinate guard, the hit list holds, in
  document order (ancestors before descendants), exactly the nodes whose real-pixel box
  contains the point and whose ancestors below the Layout all contain it too; the event
  goes to the last element of the list, and to the Layout when the list is empty.
\<close>

theorem hit_chain_target:
  assumes "pageX (first_touch e) = Some x" "x \<noteq> 0" "pageY (first_touch e) = Some y" "y \<noteq> 0"
  shows "getChildByPos (elem this) x y []
           = map snd (filter (on_hit_chain x y) (descendants [] (elem this)))
         \<and> hit_target this x y
             = (if getChildByPos (elem this) x y [] = [] then OnLayout
                else OnElement (last (getChildByPos (elem this) x y [])))
         \<and> hd (drop (length (emitted this)) (emitted (eventHandler click eventName e this)))
             = (hit_target this x y, eventName)"
proof -
  have "getChildByPos (elem this) x y []
          = [] @ map snd (filter (on_hit_chain x y) (descendants [] (elem this)))"
    by (rule getChildByPos_chain) simp
  moreover have "hd (drop (length (emitted this)) (emitted (eventHandler click eventName e this)))
             = (hit_target this x y, eventName)"
    by (simp add: eventHandler_dispatch[OF assms])
  ultimately show ?thesis by (simp add: hit_target_def Let_def)
qed

text \<open>
  Child A at (0, 0, 100, 100) holding grandchild B at (10, 10, 20, 20): (15, 15) goes to
  B, (50, 50) to A, (500, 500) to the Layout.
\<close>

theorem hit_chain_target_witness:
  "hit_target (layout_of node_A) 15 15 = OnElement node_B
   \<and> hit_target (layout_of node_A) 50 50 = OnElement node_A
   \<and> hit_target (layout_of node_A) 500 500 = OnLayout
   \<and> map snd (filter (on_hit_chain 15 15) (descendants [] (elem (layout_of node_A))))
       = [node_A, node_B]
   \<and> hd (emitted (eventHandler (isClick 30 300) Touchmove (touch_event 15 15 1000) (layout_of node_A)))
       = (OnElement node_B, Touchmove)"
proof -
  have e: "emitted (layout_of node_A) = []" by (simp add: layout_of_def)
  show ?thesis
    using hit_chain_target[of "touch_event 15 15 1000" 15 15 "layout_of node_A" "isClick 30 300" Touchmove]
          hit_chain_target[of "touch_event 50 50 1000" 50 50 "layout_of node_A" "isClick 30 300" Touchmove]
          hit_chain_target[of "touch_event 500 500 1000" 500 500 "layout_of node_A" "isClick 30 300" Touchmove]
    by (simp add: hit_demo e)
qed

text \<open>
  C4 as stated fails: a node whose box contains the point is not collected when its
  parent's box does not contain it. Here the child at (50, 50, 10, 10) of a parent at
  (0, 0, 10, 10) contains (55, 55), the list is empty and the event goes to the Layout.
\<close>

theorem hit_every_node_counterexample:
  "([small_A], outside_B) \<in> set (descendants [] (elem (layout_of small_A)))
   \<and> box_contains (realLayoutBox outside_B) 55 55
   \<and> outside_B \<notin> set (getChildByPos (elem (layout_of small_A)) 55 55 [])
   \<and> hit_target (layout_of small_A) 55 55 = OnLayout"
  by (simp add: layout_of_def small_A_def outside_B_def real_box_def box_contains_def hit_target_def)

subsection \<open>Click synthesis\<close>

text \<open>
  C5, as amended: a \<open>touchend\<close> whose touch point passes the coordinate guard is emitted
  on its target, and \<open>click\<close> follows on the same target exactly when \<open>isClick\<close>
  accepts the gesture record with this \<open>touchend\<close> stored in it; otherwise no \<open>click\<close>.
\<close>

theorem click_after_touchend:
  assumes "pageX (first_touch e) = Some x" "x \<noteq> 0" "pageY (first_touch e) = Some y" "y \<noteq> 0"
  shows "emitted (eventHandler click Touchend e this)
           = emitted this @
             (if click ((touchMsg this)\<lparr>touchend := Some (stamped e (first_touch e))\<rparr>)
              then [(hit_target this x y, Touchend), (hit_target this x y, Click)]
              else [(hit_target this x y, Touchend)])"
  by (simp add: eventHandler_dispatch[OF assms] record_touch_def)

lemma after_start:
  "eventHandler click Touchstart (touch_event 10 10 1000) (layout_of node_A)
     = (layout_of node_A)\<lparr>emitted := [(OnElement node_B, Touchstart)],
          touchMsg := \<lparr>touchstart = Some (touch_at 10 10 1000), touchend = None\<rparr>\<rparr>"
proof -
  have "hit_target (layout_of node_A) 10 10 = OnElement node_B"
    by (simp add: hit_target_def layout_of_def node_A_def node_B_def real_box_def box_contains_def)
  then show ?thesis
    by (simp add: eventHandler_dispatch[of _ 10 10] record_touch_def) (simp add: layout_of_def)
qed

lemma isClick_samples:
  "isClick 30 300 \<lparr>touchstart = Some (touch_at 10 10 1000), touchend = Some (touch_at 12 11 1150)\<rparr>"
  "\<not> isClick 30 300 \<lparr>touchstart = Some (touch_at 10 10 1000), touchend = Some (touch_at 12 11 3000)\<rparr>"
  "isClick 30 300 \<lparr>touchstart = Some (touch_at 10 10 1000), touchend = Some (touch_at 12 11 1100)\<rparr>"
  by (simp_all add: isClick_def touch_at_def power2_eq_square)

text \<open>
  A start at (10, 10) and an end at (12, 11) 150 ms later give \<open>touchend\<close> then
  \<open>click\<close> on the same node; an end 2000 ms later gives \<open>touchend\<close> alone.
\<close>

theorem click_after_touchend_witness:
  "emitted (eventHandler (isClick 30 300) Touchend (touch_event 12 11 1150)
      (eventHandler (isClick 30 300) Touchstart (touch_event 10 10 1000) (layout_of node_A)))
     = [(OnElement node_B, Touchstart), (OnElement node_B, Touchend), (OnElement node_B, Click)]
   \<and> emitted (eventHandler (isClick 30 300) Touchend (touch_event 12 11 3000)
      (eventHandler (isClick 30 300) Touchstart (touch_event 10 10 1000) (layout_of node_A)))
     = [(OnElement node_B, Touchstart), (OnElement node_B, Touchend)]"
proof -
  let ?l = "eventHandler (isClick 30 300) Touchstart (touch_event 10 10 1000) (layout_of node_A)"
  have t: "hit_target ?l 12 11 = OnElement node_B"
    by (simp add: after_start hit_target_def)
       (simp add: layout_of_def node_A_def node_B_def real_box_def box_contains_def)
  show ?thesis
    using click_after_touchend[of "touch_event 12 11 1150" 12 11 "isClick 30 300" ?l]
          click_after_touchend[of "touch_event 12 11 3000" 12 11 "isClick 30 300" ?l]
    by (simp add: t) (simp add: after_start isClick_samples)
qed

text \<open>
  C5 as stated fails on the coordinate guard: a \<open>touchend\<close> at (0, 10), 100 ms after
  and 3 pixels from its \<open>touchstart\<close>, is within the thresholds, and neither
  \<open>touchend\<close> nor \<open>click\<close> is emitted.
\<close>

theorem click_edge_counterexample:
  "isClick 30 300 \<lparr>touchstart = Some (touch_at 3 10 1000), touchend = Some (touch_at 0 10 1100)\<rparr>
   \<and> emitted (eventHandler (isClick 30 300) Touchend (touch_event 0 10 1100)
        (eventHandler (isClick 30 300) Touchstart (touch_event 3 10 1000) (layout_of node_A)))
      = [(OnElement node_A, Touchstart)]"
proof -
  have "hit_target (layout_of node_A) 3 10 = OnElement node_A"
    by (simp add: hit_target_def layout_of_def node_A_def node_B_def real_box_def box_contains_def)
  then have "emitted (eventHandler (isClick 30 300) Touchstart (touch_event 3 10 1000) (layout_of node_A))
      = [(OnElement node_A, Touchstart)]"
    by (simp add: eventHandler_dispatch[of _ 3 10]) (simp add: layout_of_def)
  moreover have "eventHandler (isClick 30 300) Touchend (touch_event 0 10 1100) l = l" for l
    by (rule eventHandler_guard) (simp add: js_not_def)
  moreover have "isClick 30 300 \<lparr>touchstart = Some (touch_at 3 10 1000), touchend = Some (touch_at 0 10 1100)\<rparr>"
    by (simp add: isClick_def touch_at_def power2_eq_square)
  ultimately show ?thesis by simp
qed

subsection \<open>The gesture record is never cleared\<close>




section \<open>Reflow\<close>

lemma children_set_children [simp]: "children (set_children cs e) = cs"
  by (cases e) simp

lemma realLayoutBox_set_children [simp]: "realLayoutBox (set_children cs e) = realLayoutBox e"
  by (cases e) simp

lemma realLayoutBox_set_realLayoutBox [simp]: "realLayoutBox (set_realLayoutBox rb e) = rb"
  by (cases e) simp

lemma children_set_realLayoutBox [simp]: "children (set_realLayoutBox rb e) = children e"
  by (cases e) simp

lemma set_children_twice [simp]: "set_children cs (set_children ds e) = set_children cs e"
  by (cases e) simp

text \<open>Without a root element \<open>reflow\<close> throws before anything is cleared.\<close>

lemma reflow_no_root:
  "children (elem this) = [] \<Longrightarrow> reflow cl lc ur this = Inl TypeError"
  by (simp add: reflow_def)

text \<open>
  With a root element \<open>reflow\<close> completes. The renderport is taken from the root's style
  when both width and height are defined; \<open>updateRealLayout\<close> is handed the Layout's
  element tree as \<open>layoutChildren\<close> left it, with the scale
  \<open>viewport.width / renderport.width\<close>; only \<open>isDirty\<close> is written among the flags.
\<close>

lemma reflow_result:
  assumes "children (elem this) = c0 # rest"
  shows "\<exists>this'. reflow cl lc ur this = Inr this'
         \<and> (if style_width (cl c0) = None \<or> style_height (cl c0) = None
             then renderport_width this' = renderport_width this
                  \<and> renderport_height this' = renderport_height this
                  \<and> calls this' = calls this @ [ComputeLayout, ConsoleError, LayoutChildren,
                        UpdateRealLayout (js_div (viewport_width this) (renderport_width this')),
                        ClearCanvas, RenderChildren]
             else renderport_width this' = style_width (cl c0)
                  \<and> renderport_height this' = style_height (cl c0)
                  \<and> calls this' = calls this @ [ComputeLayout, LayoutChildren,
                        UpdateRealLayout (js_div (viewport_width this) (renderport_width this')),
                        ClearCanvas, RenderChildren])
         \<and> elem this' = ur (set_children (lc (cl c0 # rest)) (elem this))
                            (js_div (viewport_width this) (renderport_width this'))
         \<and> viewport_width this' = viewport_width this \<and> viewport_height this' = viewport_height this
         \<and> viewport_x this' = viewport_x this \<and> viewport_y this' = viewport_y this
         \<and> isDirty this' = False \<and> isNeedRepaint this' = isNeedRepaint this
         \<and> touchMsg this' = touchMsg this \<and> emitted this' = emitted this"
  using assms by (simp add: reflow_def Let_def called_def)

lemma reflow_Inr_root:
  assumes "reflow cl lc ur this = Inr this'"
  shows "\<exists>c0 rest. children (elem this) = c0 # rest"
  using assms by (cases "children (elem this)") (simp_all add: reflow_def)

text \<open>The calls of a completed \<open>reflow\<close>, and its flags.\<close>

lemma reflow_Inr:
  assumes "reflow cl lc ur this = Inr this'"
  shows "(\<exists>scale. calls this' = calls this @ [ComputeLayout, LayoutChildren,
                      UpdateRealLayout scale, ClearCanvas, RenderChildren]
                \<or> calls this' = calls this @ [ComputeLayout, ConsoleError, LayoutChildren,
                      UpdateRealLayout scale, ClearCanvas, RenderChildren])
         \<and> isDirty this' = False \<and> isNeedRepaint this' = isNeedRepaint this"
proof -
  from reflow_Inr_root[OF assms] obtain c0 rest where k: "children (elem this) = c0 # rest"
    by blast
  from reflow_result[OF k, of cl lc ur] assms show ?thesis
    by (auto split: if_splits)
qed

text \<open>
  After \<open>updateViewPort\<close> the real origin of the Layout is the viewport origin, and a
  reflow hands \<open>updateRealLayout\<close> that origin and the scale of the viewport width over
  the root's style width.
\<close>

lemma reflow_after_updateViewPort:
  assumes "children (elem this) = c0 # rest"
      and "style_width (cl c0) = Some w" "style_height (cl c0) = Some h"
  shows "reflow cl lc ur (updateViewPort box this)
           = Inr ((updateViewPort box this)
                   \<lparr>elem := ur (set_children (lc (cl c0 # rest))
                                  (set_realLayoutBox
                                     \<lparr>realX = js_or0 (box_x box), realY = js_or0 (box_y box),
                                      rb_width = None, rb_height = None\<rparr> (elem this)))
                                (js_div (Some (js_or0 (box_width box))) (Some w)),
                     renderport_width := Some w, renderport_height := Some h,
                     calls := calls this @ [ComputeLayout, LayoutChildren,
                                UpdateRealLayout (js_div (Some (js_or0 (box_width box))) (Some w)),
                                ClearCanvas, RenderChildren],
                     isDirty := False\<rparr>)"
  using assms by (simp add: reflow_def updateViewPort_def Let_def called_def)

section \<open>The ticker\<close>

lemma calls_tween_update [simp]: "calls (tween_update tw this) = calls this @ [TweenUpdate]"
  by (simp add: tween_update_def called_def split: prod.splits)

lemma repaint_effect:
  "calls (repaint this) = calls this @ [ClearCanvas, RepaintChildren]"
  "isNeedRepaint (repaint this) = False"
  "isDirty (repaint this) = isDirty this"
  "elem (repaint this) = elem this"
  by (simp_all add: repaint_def called_def)

lemma reflow_calls_after_tween:
  assumes "reflow cl lc ur (tween_update tw this) = Inr this'"
  shows "\<exists>scale. new_calls this this' = [TweenUpdate, ComputeLayout, LayoutChildren, UpdateRealLayout scale, ClearCanvas, RenderChildren]
               \<or> new_calls this this' = [TweenUpdate, ComputeLayout, ConsoleError, LayoutChildren, UpdateRealLayout scale, ClearCanvas, RenderChildren]"
  using reflow_Inr[OF assms] by (auto simp add: new_calls_def)

lemma reflow_completes:
  assumes "children (elem this) \<noteq> []"
  shows "\<exists>this'. reflow cl lc ur this = Inr this'"
proof -
  from assms obtain c0 rest where "children (elem this) = c0 # rest"
    by (cases "children (elem this)") auto
  from reflow_result[OF this, of cl lc ur] show ?thesis by blast
qed

text \<open>
  C2: a tick first advances the animations; then, on the flags as the animations left
  them, it runs \<open>reflow\<close> when \<open>isDirty\<close> is set, else \<open>repaint\<close> when
  \<open>isNeedRepaint\<close> is set, else nothing: no layout, clear or draw call. A completed
  tick never has both a solver call and a repaint pass. On the reflow path the tick
  completes whenever the Layout has a root element, and throws without one.
\<close>

theorem tick_order:
  "(isDirty (tween_update tw this) \<longrightarrow>
      tickerFunc tw cl lc ur this = reflow cl lc ur (tween_update tw this)
      \<and> (\<forall>this'. tickerFunc tw cl lc ur this = Inr this' \<longrightarrow>
           (\<exists>scale. new_calls this this'
                      = [TweenUpdate, ComputeLayout, LayoutChildren, UpdateRealLayout scale,
                         ClearCanvas, RenderChildren]
                  \<or> new_calls this this'
                      = [TweenUpdate, ComputeLayout, ConsoleError, LayoutChildren,
                         UpdateRealLayout scale, ClearCanvas, RenderChildren])))
   \<and> (\<not> isDirty (tween_update tw this) \<and> isNeedRepaint (tween_update tw this) \<longrightarrow>
      tickerFunc tw cl lc ur this = Inr (repaint (tween_update tw this))
      \<and> new_calls this (repaint (tween_update tw this)) = [TweenUpdate, ClearCanvas, RepaintChildren])
   \<and> (\<not> isDirty (tween_update tw this) \<and> \<not> isNeedRepaint (tween_update tw this) \<longrightarrow>
      tickerFunc tw cl lc ur this = Inr (tween_update tw this)
      \<and> new_calls this (tween_update tw this) = [TweenUpdate])
   \<and> (\<forall>this'. tickerFunc tw cl lc ur this = Inr this' \<longrightarrow>
        \<not> (ComputeLayout \<in> set (new_calls this this') \<and> RepaintChildren \<in> set (new_calls this this')))
   \<and> (isDirty (tween_update tw this) \<and> children (elem (tween_update tw this)) \<noteq> [] \<longrightarrow>
        (\<exists>this'. tickerFunc tw cl lc ur this = Inr this'))
   \<and> (isDirty (tween_update tw this) \<and> children (elem (tween_update tw this)) = [] \<longrightarrow>
        tickerFunc tw cl lc ur this = Inl TypeError)"
proof (intro conjI impI allI)
  assume "isDirty (tween_update tw this)"
  then show "tickerFunc tw cl lc ur this = reflow cl lc ur (tween_update tw this)"
    by (simp add: tickerFunc_def)
next
  fix this'
  assume "isDirty (tween_update tw this)" "tickerFunc tw cl lc ur this = Inr this'"
  then have "reflow cl lc ur (tween_update tw this) = Inr this'"
    by (simp add: tickerFunc_def)
  from reflow_calls_after_tween[OF this]
  show "\<exists>scale. new_calls this this'
                      = [TweenUpdate, ComputeLayout, LayoutChildren, UpdateRealLayout scale,
                         ClearCanvas, RenderChildren]
                  \<or> new_calls this this'
                      = [TweenUpdate, ComputeLayout, ConsoleError, LayoutChildren,
                         UpdateRealLayout scale, ClearCanvas, RenderChildren]" .
next
  assume "\<not> isDirty (tween_update tw this) \<and> isNeedRepaint (tween_update tw this)"
  then show "tickerFunc tw cl lc ur this = Inr (repaint (tween_update tw this))"
    by (simp add: tickerFunc_def)
next
  show "new_calls this (repaint (tween_update tw this)) = [TweenUpdate, ClearCanvas, RepaintChildren]"
    by (simp add: new_calls_def repaint_effect)
next
  assume "\<not> isDirty (tween_update tw this) \<and> \<not> isNeedRepaint (tween_update tw this)"
  then show "tickerFunc tw cl lc ur this = Inr (tween_update tw this)"
    by (simp add: tickerFunc_def)
next
  show "new_calls this (tween_update tw this) = [TweenUpdate]"
    by (simp add: new_calls_def)
next
  fix this'
  assume t: "tickerFunc tw cl lc ur this = Inr this'"
  show "\<not> (ComputeLayout \<in> set (new_calls this this') \<and> RepaintChildren \<in> set (new_calls this this'))"
  proof (cases "isDirty (tween_update tw this)")
    case True
    with t have "reflow cl lc ur (tween_update tw this) = Inr this'"
      by (simp add: tickerFunc_def)
    from reflow_calls_after_tween[OF this] show ?thesis by auto
  next
    case False
    with t have "this' = repaint (tween_update tw this) \<or> this' = tween_update tw this"
      by (auto simp add: tickerFunc_def Let_def split: if_splits)
    then show ?thesis
      by (auto simp add: new_calls_def repaint_effect)
  qed
next
  assume a: "isDirty (tween_update tw this) \<and> children (elem (tween_update tw this)) \<noteq> []"
  then have "tickerFunc tw cl lc ur this = reflow cl lc ur (tween_update tw this)"
    by (simp add: tickerFunc_def)
  with reflow_completes[of "tween_update tw this" cl lc ur] a
  show "\<exists>this'. tickerFunc tw cl lc ur this = Inr this'" by simp
next
  assume "isDirty (tween_update tw this) \<and> children (elem (tween_update tw this)) = []"
  then show "tickerFunc tw cl lc ur this = Inl TypeError"
    by (simp add: tickerFunc_def reflow_no_root)
qed

text \<open>Ticks on the example Layout, by evaluation.\<close>

lemma tick_samples:
  "map_sum id calls (tickerFunc keep id id same_boxes (ready\<lparr>isDirty := True\<rparr>))
     = Inr [TweenUpdate, ComputeLayout, LayoutChildren, UpdateRealLayout (Num 2), ClearCanvas, RenderChildren]"
  "map_sum id flags (tickerFunc keep id id same_boxes (ready\<lparr>isDirty := True, isNeedRepaint := True\<rparr>))
     = Inr (False, True)"
  "map_sum id calls (tickerFunc keep id id same_boxes (ready\<lparr>isNeedRepaint := True\<rparr>))
     = Inr [TweenUpdate, ClearCanvas, RepaintChildren]"
  "map_sum id flags (tickerFunc keep id id same_boxes (ready\<lparr>isNeedRepaint := True\<rparr>))
     = Inr (False, False)"
  "tickerFunc keep id id same_boxes ready = Inr (called [TweenUpdate] ready)"
  by (simp_all add: tickerFunc_def tween_update_def keep_def repaint_def flags_def same_boxes_def
        ready_def reflow_def updateViewPort_def layout_of_def view200_def laid_A_def
        laid_B_def laid_C_def js_or0_def js_div_def called_def Let_def)

text \<open>A Layout whose viewport was never set: the scale is NaN, and the reflow still completes.\<close>

lemma tick_samples_unset:
  "map_sum id calls (tickerFunc keep id id same_boxes ((layout_of laid_A)\<lparr>isDirty := True, isNeedRepaint := True\<rparr>))
     = Inr [TweenUpdate, ComputeLayout, LayoutChildren, UpdateRealLayout NaN, ClearCanvas, RenderChildren]"
  "map_sum id flags (tickerFunc keep id id same_boxes ((layout_of laid_A)\<lparr>isDirty := True, isNeedRepaint := True\<rparr>))
     = Inr (False, True)"
  by (simp_all add: tickerFunc_def tween_update_def keep_def flags_def same_boxes_def
        reflow_def layout_of_def laid_A_def laid_B_def laid_C_def js_div_def called_def Let_def)

text \<open>The geometry mutation on the example Layout: the root's style width becomes 50, the scale 4.\<close>

lemma tick_samples_widen:
  "map_sum id calls (tickerFunc keep id id same_boxes (geometry_mutation widen ready))
     = Inr [TweenUpdate, ComputeLayout, LayoutChildren, UpdateRealLayout (Num 4), ClearCanvas, RenderChildren]"
  "map_sum id renderport_width (tickerFunc keep id id same_boxes (geometry_mutation widen ready))
     = Inr (Some 50)"
  "children (elem (tween_update keep (geometry_mutation widen ready))) \<noteq> []"
  by (simp_all add: tickerFunc_def tween_update_def keep_def flags_def same_boxes_def
        geometry_mutation_def widen_def
        ready_def reflow_def updateViewPort_def layout_of_def view200_def laid_A_def
        laid_B_def laid_C_def js_or0_def js_div_def called_def Let_def)

text \<open>The three paths of a tick on the example Layout.\<close>

theorem tick_order_witness:
  "map_sum id calls (tickerFunc keep id id same_boxes (ready\<lparr>isDirty := True\<rparr>))
     = Inr [TweenUpdate, ComputeLayout, LayoutChildren, UpdateRealLayout (Num 2), ClearCanvas, RenderChildren]
   \<and> map_sum id calls (tickerFunc keep id id same_boxes (ready\<lparr>isNeedRepaint := True\<rparr>))
     = Inr [TweenUpdate, ClearCanvas, RepaintChildren]
   \<and> tickerFunc keep id id same_boxes ready = Inr (called [TweenUpdate] ready)"
  using tick_order[of keep "ready\<lparr>isDirty := True\<rparr>" id id same_boxes]
        tick_order[of keep "ready\<lparr>isNeedRepaint := True\<rparr>" id id same_boxes]
        tick_order[of keep ready id id same_boxes]
  by (simp add: tick_samples)

text \<open>
  C3, as amended: a tick on the reflow path, on a Layout with a root element, completes,
  clears \<open>isDirty\<close> and leaves \<open>isNeedRepaint\<close> as it was, whatever the scale; without
  a root element it throws. A tick on the repaint path clears \<open>isNeedRepaint\<close> and
  leaves \<open>isDirty\<close> as it was.
\<close>

theorem tick_clears_own_flag:
  "(isDirty (tween_update tw this) \<and> children (elem (tween_update tw this)) \<noteq> [] \<longrightarrow>
      (\<exists>this'. tickerFunc tw cl lc ur this = Inr this'
         \<and> isDirty this' = False \<and> isNeedRepaint this' = isNeedRepaint (tween_update tw this)))
   \<and> (isDirty (tween_update tw this) \<and> children (elem (tween_update tw this)) = [] \<longrightarrow>
      tickerFunc tw cl lc ur this = Inl TypeError)
   \<and> (\<not> isDirty (tween_update tw this) \<and> isNeedRepaint (tween_update tw this) \<longrightarrow>
      (\<exists>this'. tickerFunc tw cl lc ur this = Inr this'
         \<and> isNeedRepaint this' = False \<and> isDirty this' = isDirty (tween_update tw this)))"
proof (intro conjI impI)
  assume a: "isDirty (tween_update tw this) \<and> children (elem (tween_update tw this)) \<noteq> []"
  then have t: "tickerFunc tw cl lc ur this = reflow cl lc ur (tween_update tw this)"
    by (simp add: tickerFunc_def)
  from reflow_completes[of "tween_update tw this" cl lc ur] a
  obtain this' where r: "reflow cl lc ur (tween_update tw this) = Inr this'" by blast
  from reflow_Inr[OF r] t r
  show "\<exists>this'. tickerFunc tw cl lc ur this = Inr this'
         \<and> isDirty this' = False \<and> isNeedRepaint this' = isNeedRepaint (tween_update tw this)"
    by simp
next
  assume "isDirty (tween_update tw this) \<and> children (elem (tween_update tw this)) = []"
  then show "tickerFunc tw cl lc ur this = Inl TypeError"
    by (simp add: tickerFunc_def reflow_no_root)
next
  assume "\<not> isDirty (tween_update tw this) \<and> isNeedRepaint (tween_update tw this)"
  then have "tickerFunc tw cl lc ur this = Inr (repaint (tween_update tw this))"
    by (simp add: tickerFunc_def)
  then show "\<exists>this'. tickerFunc tw cl lc ur this = Inr this'
         \<and> isNeedRepaint this' = False \<and> isDirty this' = isDirty (tween_update tw this)"
    by (simp add: repaint_effect)
qed

text \<open>
  Both flags set, with the viewport set and with the viewport never set (a NaN scale): the
  reflow path leaves \<open>isNeedRepaint\<close> set. Only \<open>isNeedRepaint\<close> set: both are clear after.
\<close>

theorem tick_clears_own_flag_witness:
  "map_sum id flags (tickerFunc keep id id same_boxes (ready\<lparr>isDirty := True, isNeedRepaint := True\<rparr>))
     = Inr (False, True)
   \<and> map_sum id flags (tickerFunc keep id id same_boxes
        ((layout_of laid_A)\<lparr>isDirty := True, isNeedRepaint := True\<rparr>))
     = Inr (False, True)
   \<and> map_sum id flags (tickerFunc keep id id same_boxes (ready\<lparr>isNeedRepaint := True\<rparr>))
     = Inr (False, False)"
  using tick_clears_own_flag[of keep "ready\<lparr>isDirty := True, isNeedRepaint := True\<rparr>" id id same_boxes]
        tick_clears_own_flag[of keep "(layout_of laid_A)\<lparr>isDirty := True, isNeedRepaint := True\<rparr>" id id same_boxes]
        tick_clears_own_flag[of keep "ready\<lparr>isNeedRepaint := True\<rparr>" id id same_boxes]
  by (simp add: tick_samples tick_samples_unset)

text \<open>
  C3 as stated fails: with both flags set the tick takes the reflow path, and
  \<open>isNeedRepaint\<close> is still set at its end.
\<close>

theorem reflow_keeps_repaint_flag_counterexample:
  "map_sum id flags (tickerFunc keep id id same_boxes (ready\<lparr>isDirty := True, isNeedRepaint := True\<rparr>))
     = Inr (False, True)"
  by (simp add: tick_samples)

section \<open>Mutations and the solver\<close>

lemma element_emit_repaint: "element_emit [''repaint''] this = this\<lparr>isNeedRepaint := True\<rparr>"
  by (simp add: element_emit_def layout_on_def)

lemma tween_update_quiet:
  assumes "\<forall>s. snd (tw s) = snd s"
  shows "isDirty (tween_update tw this) = isDirty this"
        "isNeedRepaint (tween_update tw this) = isNeedRepaint this"
proof -
  from assms have "snd (tw (children (elem this), isDirty this, isNeedRepaint this))
                     = (isDirty this, isNeedRepaint this)" by simp
  then show "isDirty (tween_update tw this) = isDirty this"
        "isNeedRepaint (tween_update tw this) = isNeedRepaint this"
    by (auto simp add: tween_update_def called_def split: prod.splits)
qed

text \<open>A tick on a dirty Layout with a root element: one solver call, no repaint pass, \<open>isDirty\<close> clear after.\<close>

lemma dirty_tick:
  assumes quiet: "\<forall>s. snd (tw s) = snd s"
      and dirty: "isDirty s" and root: "children (elem (tween_update tw s)) \<noteq> []"
  shows "\<exists>this'. tickerFunc tw cl lc ur s = Inr this'
           \<and> count_list (new_calls s this') ComputeLayout = 1
           \<and> RepaintChildren \<notin> set (new_calls s this')
           \<and> \<not> isDirty this'"
proof -
  have d: "isDirty (tween_update tw s)"
    using tween_update_quiet[OF quiet, of s] dirty by simp
  from reflow_completes[OF root, of cl lc ur]
  obtain this' where r: "reflow cl lc ur (tween_update tw s) = Inr this'" by blast
  have t: "tickerFunc tw cl lc ur s = Inr this'"
    using d r by (simp add: tickerFunc_def)
  from reflow_calls_after_tween[OF r]
  have "count_list (new_calls s this') ComputeLayout = 1"
       "RepaintChildren \<notin> set (new_calls s this')"
    by auto
  moreover from reflow_Inr[OF r] have "\<not> isDirty this'" by simp
  ultimately show ?thesis using t by simp
qed

text \<open>A tick on a Layout that is not dirty makes no solver call.\<close>

lemma clean_tick:
  assumes quiet: "\<forall>s. snd (tw s) = snd s" and clean: "\<not> isDirty s"
  shows "\<exists>this'. tickerFunc tw cl lc ur s = Inr this'
           \<and> ComputeLayout \<notin> set (new_calls s this')"
proof -
  have d: "\<not> isDirty (tween_update tw s)"
    using tween_update_quiet[OF quiet, of s] clean by simp
  show ?thesis
  proof (cases "isNeedRepaint (tween_update tw s)")
    case True
    with d have "tickerFunc tw cl lc ur s = Inr (repaint (tween_update tw s))"
      by (simp add: tickerFunc_def)
    then show ?thesis by (simp add: new_calls_def repaint_effect)
  next
    case False
    with d have "tickerFunc tw cl lc ur s = Inr (tween_update tw s)"
      by (simp add: tickerFunc_def)
    then show ?thesis by (simp add: new_calls_def)
  qed
qed

text \<open>
  C7: with no animation touching the flags, assigning a new \<open>src\<close> to an Image starts
  a load, and the completed load sets \<open>isNeedRepaint\<close> only; from a Layout that was not
  dirty the next tick repaints without a solver call. A tick on a dirty Layout with a root
  element completes with exactly one solver call and no repaint pass, leaves \<open>isDirty\<close>
  clear, and the tick after it makes no solver call. A geometry mutation sets
  \<open>isDirty\<close>, so the next tick is such a tick.
\<close>

theorem dirty_flag_law:
  assumes quiet: "\<forall>s. snd (tw s) = snd s"
  shows "(newValue \<noteq> imgsrc pic \<longrightarrow> snd (set_src newValue pic) = Some newValue)
       \<and> element_emit (snd (src_loaded loaded (fst (set_src newValue pic)))) this
           = this\<lparr>isNeedRepaint := True\<rparr>
       \<and> (\<not> isDirty this \<longrightarrow>
            (\<exists>this'. tickerFunc tw cl lc ur (this\<lparr>isNeedRepaint := True\<rparr>) = Inr this'
               \<and> new_calls (this\<lparr>isNeedRepaint := True\<rparr>) this'
                   = [TweenUpdate, ClearCanvas, RepaintChildren]))
       \<and> (\<forall>s. isDirty s \<and> children (elem (tween_update tw s)) \<noteq> [] \<longrightarrow>
            (\<exists>this'. tickerFunc tw cl lc ur s = Inr this'
               \<and> count_list (new_calls s this') ComputeLayout = 1
               \<and> RepaintChildren \<notin> set (new_calls s this')
               \<and> \<not> isDirty this'
               \<and> (\<exists>this''. tickerFunc tw cl lc ur this' = Inr this''
                        \<and> ComputeLayout \<notin> set (new_calls this' this''))))
       \<and> isDirty (geometry_mutation f this)
       \<and> (children (elem (tween_update tw (geometry_mutation f this))) \<noteq> [] \<longrightarrow>
            (\<exists>this'. tickerFunc tw cl lc ur (geometry_mutation f this) = Inr this'
               \<and> count_list (new_calls (geometry_mutation f this) this') ComputeLayout = 1
               \<and> RepaintChildren \<notin> set (new_calls (geometry_mutation f this) this')
               \<and> \<not> isDirty this'))"
proof (intro conjI impI allI)
  assume "newValue \<noteq> imgsrc pic"
  then show "snd (set_src newValue pic) = Some newValue"
    by (simp add: set_src_def)
next
  show "element_emit (snd (src_loaded loaded (fst (set_src newValue pic)))) this
           = this\<lparr>isNeedRepaint := True\<rparr>"
    by (simp add: src_loaded_def element_emit_repaint)
next
  assume clean: "\<not> isDirty this"
  let ?p = "this\<lparr>isNeedRepaint := True\<rparr>"
  from tween_update_quiet[OF quiet, of ?p] clean
  have "tickerFunc tw cl lc ur ?p = Inr (repaint (tween_update tw ?p))"
    by (simp add: tickerFunc_def)
  moreover have "new_calls ?p (repaint (tween_update tw ?p)) = [TweenUpdate, ClearCanvas, RepaintChildren]"
    by (simp add: new_calls_def repaint_effect)
  ultimately show "\<exists>this'. tickerFunc tw cl lc ur ?p = Inr this'
               \<and> new_calls ?p this' = [TweenUpdate, ClearCanvas, RepaintChildren]"
    by simp
next
  fix s
  assume a: "isDirty s \<and> children (elem (tween_update tw s)) \<noteq> []"
  from dirty_tick[OF quiet, of s cl lc ur] a
  obtain this' where t: "tickerFunc tw cl lc ur s = Inr this'"
      "count_list (new_calls s this') ComputeLayout = 1"
      "RepaintChildren \<notin> set (new_calls s this')" "\<not> isDirty this'"
    by blast
  from clean_tick[OF quiet t(4), of cl lc ur] t
  show "\<exists>this'. tickerFunc tw cl lc ur s = Inr this'
               \<and> count_list (new_calls s this') ComputeLayout = 1
               \<and> RepaintChildren \<notin> set (new_calls s this')
               \<and> \<not> isDirty this'
               \<and> (\<exists>this''. tickerFunc tw cl lc ur this' = Inr this''
                        \<and> ComputeLayout \<notin> set (new_calls this' this''))"
    by blast
next
  show "isDirty (geometry_mutation f this)"
    by (simp add: geometry_mutation_def)
next
  assume "children (elem (tween_update tw (geometry_mutation f this))) \<noteq> []"
  moreover have "isDirty (geometry_mutation f this)"
    by (simp add: geometry_mutation_def)
  ultimately show "\<exists>this'. tickerFunc tw cl lc ur (geometry_mutation f this) = Inr this'
               \<and> count_list (new_calls (geometry_mutation f this) this') ComputeLayout = 1
               \<and> RepaintChildren \<notin> set (new_calls (geometry_mutation f this) this')
               \<and> \<not> isDirty this'"
    using dirty_tick[OF quiet, of "geometry_mutation f this" cl lc ur] by blast
qed

text \<open>A new image source, and a new style width of the root, on the example Layout.\<close>

theorem dirty_flag_law_witness:
  "snd (set_src ''b.png'' logo) = Some ''b.png''
   \<and> map_sum id calls (tickerFunc keep id id same_boxes
        (element_emit (snd (src_loaded ''b.png'' (fst (set_src ''b.png'' logo)))) ready))
      = Inr [TweenUpdate, ClearCanvas, RepaintChildren]
   \<and> children (elem (tween_update keep (geometry_mutation widen ready))) \<noteq> []
   \<and> map_sum id calls (tickerFunc keep id id same_boxes (geometry_mutation widen ready))
      = Inr [TweenUpdate, ComputeLayout, LayoutChildren, UpdateRealLayout (Num 4), ClearCanvas, RenderChildren]
   \<and> map_sum id renderport_width (tickerFunc keep id id same_boxes (geometry_mutation widen ready))
      = Inr (Some 50)"
proof -
  have q: "\<forall>s. snd (keep s) = snd s" by (simp add: keep_def)
  show ?thesis
    using dirty_flag_law[OF q, of "''b.png''" logo "''b.png''" ready id id same_boxes widen]
    by (simp add: logo_def tick_samples tick_samples_widen set_src_def src_loaded_def
          element_emit_repaint)
qed

section \<open>The render context manager: the scroll set\<close>

subsection \<open>\<open>indexOf\<close>, \<open>splice\<close> and the walk below the scroll view\<close>

lemma indexOf_mem: "x \<in> set xs \<Longrightarrow> 0 \<le> indexOf xs x \<and> indexOf xs x < int (length xs)"
  by (induction xs) auto

lemma indexOf_absent: "x \<notin> set xs \<Longrightarrow> indexOf xs x = - 1"
  by (induction xs) auto

lemma splice1_nat: "n \<le> length xs \<Longrightarrow> splice1 (int n) xs = take n xs @ drop (Suc n) xs"
  by (simp add: splice1_def Let_def min_def)

lemma splice1_indexOf: "x \<in> set xs \<Longrightarrow> splice1 (indexOf xs x) xs = remove1 x xs"
proof (induction xs)
  case Nil
  then show ?case by simp
next
  case (Cons y ys)
  show ?case
  proof (cases "x = y")
    case True
    then show ?thesis by (simp add: splice1_def)
  next
    case False
    with Cons.prems have mem: "x \<in> set ys" by simp
    from indexOf_mem[OF mem] obtain n where n: "indexOf ys x = int n" "n < length ys"
      by (metis nat_less_iff zero_le_imp_eq_int of_nat_less_iff)
    have "splice1 (indexOf (y # ys) x) (y # ys) = splice1 (int (Suc n)) (y # ys)"
      using False n by (simp add: add.commute)
    also have "\<dots> = y # (take n ys @ drop (Suc n) ys)"
      using n by (subst splice1_nat) simp_all
    also have "\<dots> = y # splice1 (indexOf ys x) ys"
      using n by (simp add: splice1_nat)
    finally show ?thesis using False Cons.IH[OF mem] by simp
  qed
qed

text \<open>The last element goes when the glRect is not in the list.\<close>

lemma splice1_absent: "x \<notin> set xs \<Longrightarrow> splice1 (indexOf xs x) xs = butlast xs"
  by (cases xs rule: rev_cases) (simp_all add: indexOf_absent splice1_def Let_def butlast_append)

lemma getChildrenGlRects_fold:
  "getChildrenGlRects sv node (rects, res)
     = (fold (\<lambda>r rs. splice1 (indexOf rs r) rs) (scroll_rects sv node) rects,
        res @ scroll_rects sv node)"
proof (induction node arbitrary: rects res)
  case (RNode i g cs)
  have kids: "set ds \<subseteq> set cs \<Longrightarrow>
        fold (\<lambda>child acc. getChildrenGlRects sv child acc) ds (rects, res)
          = (fold (\<lambda>r rs. splice1 (indexOf rs r) rs) (concat (map (scroll_rects sv) ds)) rects,
             res @ concat (map (scroll_rects sv) ds))" for ds rects res
  proof (induction ds arbitrary: rects res)
    case Nil
    then show ?case by simp
  next
    case (Cons d ds)
    then have "d \<in> set cs" "set ds \<subseteq> set cs" by auto
    then show ?case using RNode.IH[of d] Cons.IH by simp
  qed
  show ?case
    by (cases g) (simp_all add: kids)
qed

lemma fold_splice_filter:
  "distinct rects \<Longrightarrow> distinct gs \<Longrightarrow> set gs \<subseteq> set rects \<Longrightarrow>
   fold (\<lambda>r rs. splice1 (indexOf rs r) rs) gs rects = filter (\<lambda>r. r \<notin> set gs) rects"
proof (induction gs arbitrary: rects)
  case Nil
  then show ?case by simp
next
  case (Cons g gs)
  then have g: "g \<in> set rects" "g \<notin> set gs" by auto
  have step: "splice1 (indexOf rects g) rects = filter (\<lambda>r. r \<noteq> g) rects"
    using splice1_indexOf[OF g(1)] Cons.prems(1)
    by (simp add: distinct_remove1_removeAll removeAll_filter_not_eq) metis
  have "fold (\<lambda>r rs. splice1 (indexOf rs r) rs) gs (filter (\<lambda>r. r \<noteq> g) rects)
          = filter (\<lambda>r. r \<notin> set gs) (filter (\<lambda>r. r \<noteq> g) rects)"
    using Cons.prems g by (intro Cons.IH) auto
  then show ?case by (simp add: step)
qed

lemma scroll_rects_other: "sv \<notin> set (node_ids node) \<Longrightarrow> scroll_rects sv node = subtree_rects node"
proof (induction node)
  case (RNode i g cs)
  then have "map (scroll_rects sv) cs = map subtree_rects cs" by auto
  then have c: "concat (map (scroll_rects sv) cs) = concat (map subtree_rects cs)"
    by (rule arg_cong)
  from RNode.prems show ?case by (cases g) (simp_all add: c)
qed

lemma scroll_rects_scrollview:
  assumes "nid sv \<notin> set (concat (map node_ids (rchildren sv)))"
  shows "scroll_rects (nid sv) sv = descendant_rects sv"
proof (cases sv)
  case (RNode i g cs)
  with assms have "map (scroll_rects i) cs = map subtree_rects cs"
    by (auto intro: scroll_rects_other)
  then have c: "concat (map (scroll_rects i) cs) = concat (map subtree_rects cs)"
    by (rule arg_cong)
  from RNode show ?thesis by (cases g) (simp_all add: descendant_rects_def c)
qed

subsection \<open>What \<open>draw\<close> does\<close>

lemma draw_later:
  assumes "hasSetup this"
  shows "draw False this
           = Inr (this\<lparr>rcalls := rcalls this @ [ResetGl MainSurface,
                                 Repaint MainSurface (glRects this) (scrollGlrects this)]\<rparr>)"
  using assms by (simp add: draw_def rcalled_def)

lemma draw_scrollCanvas:
  assumes "draw needInit this = Inr this'"
  shows "scrollCanvas this' = scrollCanvas this \<and> glTexture this' = glTexture this"
  using assms
  by (auto simp add: draw_def rcalled_def Let_def split: if_splits option.splits prod.splits)

text \<open>
  C8, as amended: on a draw that sets up (the first one, or one with \<open>needInit\<close>), with a
  scroll view whose descendants' glRects are all in \<open>glRects\<close> (identities and glRects
  distinct), every glRect owned by a strict descendant of the scroll view moves from
  \<open>glRects\<close> to \<open>scrollGlrects\<close>, in document order, and the scroll view's own glRect
  stays. The draw sets up and repaints the main surface only, with one call of the
  renderer's \<open>repaint\<close> that is given the scroll set as its last argument, and so does
  every later draw; the scroll canvas and the scroll view's texture are left as they were.
\<close>

theorem draw_partitions_scroll_rects:
  assumes first: "\<not> hasSetup this \<or> needInit"
      and lay: "m_layout this = Some lay" "scrollview lay = Some sv"
      and ids: "nid sv \<notin> set (concat (map node_ids (rchildren sv)))"
      and wf: "distinct (glRects this)" "distinct (descendant_rects sv)"
              "set (descendant_rects sv) \<subseteq> set (glRects this)"
  shows "\<exists>this'. draw needInit this = Inr this'
      \<and> scrollGlrects this' = Some (descendant_rects sv)
      \<and> glRects this' = filter (\<lambda>r. r \<notin> set (descendant_rects sv)) (glRects this)
      \<and> (\<forall>r. glRect sv = Some r \<and> r \<in> set (glRects this) \<and> r \<notin> set (descendant_rects sv)
              \<longrightarrow> r \<in> set (glRects this'))
      \<and> rcalls this' = rcalls this @ [SetupGl MainSurface, Viewport MainSurface, ResetGl MainSurface,
                                        Repaint MainSurface (glRects this') (Some (descendant_rects sv))]
      \<and> scrollCanvas this' = scrollCanvas this \<and> glTexture this' = glTexture this
      \<and> draw False this'
          = Inr (this'\<lparr>rcalls := rcalls this' @ [ResetGl MainSurface,
                          Repaint MainSurface (glRects this') (Some (descendant_rects sv))]\<rparr>)"
proof -
  let ?ds = "descendant_rects sv"
  let ?rects = "filter (\<lambda>r. r \<notin> set ?ds) (glRects this)"
  let ?m = "this\<lparr>hasSetup := True, hasScroll := True, glRects := ?rects, scrollGlrects := Some ?ds,
                 rcalls := rcalls this @ [SetupGl MainSurface, Viewport MainSurface, ResetGl MainSurface,
                                          Repaint MainSurface ?rects (Some ?ds)]\<rparr>"
  have part: "getChildrenGlRects (nid sv) sv (glRects this, []) = (?rects, ?ds)"
    using wf by (simp add: getChildrenGlRects_fold scroll_rects_scrollview[OF ids] fold_splice_filter)
  have d: "draw needInit this = Inr ?m"
    using first lay by (auto simp add: draw_def rcalled_def part)
  have later: "draw False ?m = Inr (?m\<lparr>rcalls := rcalls ?m @ [ResetGl MainSurface,
                          Repaint MainSurface (glRects ?m) (Some ?ds)]\<rparr>)"
    by (subst draw_later) simp_all
  show ?thesis
    apply (rule exI[of _ ?m])
    apply (intro conjI)
           apply (rule d)
          apply simp
         apply simp
        apply simp
       apply simp
      apply simp
     apply simp
    apply (rule later)
    done
qed

text \<open>The first draw of the example manager, by evaluation.\<close>

lemma draw_scroll_manager:
  "draw False scroll_manager
     = Inr (scroll_manager\<lparr>hasSetup := True, hasScroll := True, glRects := [1, 10],
              scrollGlrects := Some [11, 12],
              rcalls := [SetupGl MainSurface, Viewport MainSurface, ResetGl MainSurface,
                         Repaint MainSurface [1, 10] (Some [11, 12])]\<rparr>)"
  by (simp add: draw_def scroll_manager_def RenderContextManager_def pop_or_create_def
        scroll_node_def rcalled_def splice1_def Let_def)

text \<open>A scroll view with glRect 10 over items with glRects 11 and 12: the main set keeps 1 and 10.\<close>

theorem draw_partitions_scroll_rects_witness:
  "\<exists>this'. draw False scroll_manager = Inr this'
     \<and> scrollGlrects this' = Some [11, 12] \<and> glRects this' = [1, 10]
     \<and> rcalls this' = [SetupGl MainSurface, Viewport MainSurface, ResetGl MainSurface,
                        Repaint MainSurface [1, 10] (Some [11, 12])]"
proof -
  have a: "\<not> hasSetup scroll_manager \<or> False"
       "m_layout scroll_manager = Some \<lparr>scrollview = Some scroll_node\<rparr>"
       "scrollview \<lparr>scrollview = Some scroll_node\<rparr> = Some scroll_node"
       "rcalls scroll_manager = []"
       "glRects scroll_manager = [1, 10, 11, 12]"
    by (simp_all add: scroll_manager_def RenderContextManager_def pop_or_create_def)
  have b: "nid scroll_node \<notin> set (concat (map node_ids (rchildren scroll_node)))"
          "descendant_rects scroll_node = [11, 12]"
    by (simp_all add: scroll_node_def descendant_rects_def)
  have c: "distinct (glRects scroll_manager)" "distinct (descendant_rects scroll_node)"
          "set (descendant_rects scroll_node) \<subseteq> set (glRects scroll_manager)"
    by (simp_all add: a b)
  from draw_partitions_scroll_rects[OF a(1) a(2) a(3) b(1) c]
  show ?thesis by (auto simp add: a b)
qed

text \<open>
  C8 as stated fails: the first draw with a scroll view makes no call on the scroll surface
  and installs no texture; the scroll set is not rendered onto the offscreen surface.
\<close>

theorem draw_offscreen_counterexample:
  "map_sum id offscreen (draw False scroll_manager) = Inr False"
  by (simp add: draw_scroll_manager offscreen_def)
     (simp add: scroll_manager_def RenderContextManager_def pop_or_create_def)

section \<open>The canvas pool\<close>

lemma pooled_append [simp]: "pooled (p @ q) = pooled p + pooled q"
  by (simp add: pooled_def)

lemma pooled_simps [simp]:
  "pooled [] = 0" "pooled (Some c # p) = Suc (pooled p)" "pooled (None # p) = pooled p"
  "pooled (replicate n None) = 0"
  by (simp_all add: pooled_def)

lemma release_again:
  "(release ^^ n) (this\<lparr>scrollCanvas := None\<rparr>, pool)
     = (this\<lparr>scrollCanvas := None\<rparr>, pool @ replicate n None)"
proof (induction n)
  case 0
  then show ?case by simp
next
  case (Suc n)
  then show ?case by (simp add: release_def replicate_append_same)
qed

lemma release_many:
  assumes "scrollCanvas this = Some c"
  shows "(release ^^ Suc n) (this, pool)
           = (this\<lparr>scrollCanvas := None\<rparr>, pool @ Some c # replicate n None)"
proof -
  have "(release ^^ Suc n) (this, pool) = (release ^^ n) (release (this, pool))"
    by (simp only: funpow_Suc_right o_apply)
  also have "\<dots> = (release ^^ n) (this\<lparr>scrollCanvas := None\<rparr>, pool @ [Some c])"
    using assms by (simp add: release_def)
  finally show ?thesis by (simp add: release_again)
qed

lemma setupScrollGl_clears:
  assumes "setupScrollGl created (this, pool) = Inr (this', pool')"
  shows "\<exists>c. scrollCanvas this' = Some c \<and> cleared c \<and> glTexture this' = Some c"
  using assms
  by (auto simp add: setupScrollGl_def rcalled_def Let_def split: option.splits prod.splits)

text \<open>
  C9, as amended: releasing a manager that holds a scroll canvas pushes that one canvas on
  the pool; further releases push only \<open>null\<close>, so any number of releases returns exactly
  one canvas. A manager built on the pool takes the canvas on top as it is, and a new
  canvas when \<open>null\<close> is on top. No draw touches the scroll canvas; it is cleared by
  \<open>setupScrollGl\<close> only.
\<close>

theorem release_returns_one_surface:
  assumes "scrollCanvas this = Some c"
  shows "release (this, pool) = (this\<lparr>scrollCanvas := None\<rparr>, pool @ [Some c])
       \<and> (release ^^ Suc n) (this, pool)
           = (this\<lparr>scrollCanvas := None\<rparr>, pool @ Some c # replicate n None)
       \<and> pooled (snd ((release ^^ Suc n) (this, pool))) = pooled pool + 1
       \<and> scrollCanvas (fst (RenderContextManager created (pool @ [Some c]))) = Some c
       \<and> snd (RenderContextManager created (pool @ [Some c])) = pool
       \<and> scrollCanvas (fst (RenderContextManager created (pool @ [Some c, None]))) = Some created
       \<and> snd (RenderContextManager created (pool @ [Some c, None])) = pool @ [Some c]
       \<and> (\<forall>needInit m m'. draw needInit m = Inr m' \<longrightarrow> scrollCanvas m' = scrollCanvas m)
       \<and> (\<forall>m p m' p'. setupScrollGl created (m, p) = Inr (m', p') \<longrightarrow>
             (\<exists>c'. scrollCanvas m' = Some c' \<and> cleared c'))"
proof (intro conjI allI impI)
  show "release (this, pool) = (this\<lparr>scrollCanvas := None\<rparr>, pool @ [Some c])"
    using assms by (simp add: release_def)
  show "(release ^^ Suc n) (this, pool)
           = (this\<lparr>scrollCanvas := None\<rparr>, pool @ Some c # replicate n None)"
    by (rule release_many[OF assms])
  then show "pooled (snd ((release ^^ Suc n) (this, pool))) = pooled pool + 1"
    by (simp del: funpow.simps)
  show "scrollCanvas (fst (RenderContextManager created (pool @ [Some c]))) = Some c"
       "snd (RenderContextManager created (pool @ [Some c])) = pool"
    by (simp_all add: RenderContextManager_def pop_or_create_def)
  have "butlast (pool @ [Some c, None]) = pool @ [Some c]"
    by (simp add: butlast_append)
  then show "scrollCanvas (fst (RenderContextManager created (pool @ [Some c, None]))) = Some created"
       "snd (RenderContextManager created (pool @ [Some c, None])) = pool @ [Some c]"
    by (simp_all add: RenderContextManager_def pop_or_create_def)
next
  fix needInit m m'
  assume "draw needInit m = Inr m'"
  from draw_scrollCanvas[OF this] show "scrollCanvas m' = scrollCanvas m" by simp
next
  fix m p m' p'
  assume "setupScrollGl created (m, p) = Inr (m', p')"
  from setupScrollGl_clears[OF this] show "\<exists>c'. scrollCanvas m' = Some c' \<and> cleared c'"
    by blast
qed

lemma scrollCanvas_scroll_manager: "scrollCanvas scroll_manager = Some used_canvas"
  by (simp add: scroll_manager_def RenderContextManager_def pop_or_create_def)

text \<open>The example manager released once and twice.\<close>

theorem release_returns_one_surface_witness:
  "scrollCanvas scroll_manager = Some used_canvas
   \<and> snd (release (scroll_manager, [])) = [Some used_canvas]
   \<and> snd (release (release (scroll_manager, []))) = [Some used_canvas, None]
   \<and> pooled (snd (release (release (scroll_manager, [])))) = 1"
proof -
  note t = release_returns_one_surface[OF scrollCanvas_scroll_manager, of "[]" 1 new_canvas]
  have a: "release (scroll_manager, [])
              = (scroll_manager\<lparr>scrollCanvas := None\<rparr>, [] @ [Some used_canvas])"
    by (rule t[THEN conjunct1])
  have b: "(release ^^ Suc 1) (scroll_manager, [])
              = (scroll_manager\<lparr>scrollCanvas := None\<rparr>, [] @ Some used_canvas # replicate 1 None)"
    by (rule t[THEN conjunct2, THEN conjunct1])
  have c: "release (release (scroll_manager, [])) = (release ^^ Suc 1) (scroll_manager, [])"
    by simp
  show ?thesis
    unfolding c b unfolding a by (simp add: scrollCanvas_scroll_manager)
qed

text \<open>
  C9 as stated fails: a manager built on a pool holding a canvas that was drawn on gets
  that canvas uncleared, and it is still uncleared after the first draw.
\<close>

theorem pooled_surface_not_cleared_counterexample:
  "snd (release (scroll_manager, [])) = [Some used_canvas]
   \<and> scrollCanvas reused_manager = Some used_canvas
   \<and> \<not> cleared used_canvas
   \<and> map_sum id scrollCanvas (draw False reused_manager) = Inr (Some used_canvas)
   \<and> map_sum id offscreen (draw False reused_manager) = Inr False"
proof -
  have r: "release (scroll_manager, []) = (scroll_manager\<lparr>scrollCanvas := None\<rparr>, [Some used_canvas])"
    by (simp add: release_def scrollCanvas_scroll_manager)
  have m: "reused_manager = scroll_manager"
    by (simp add: reused_manager_def r) 
       (simp add: scroll_manager_def RenderContextManager_def pop_or_create_def)
  show ?thesis
    by (simp add: m r draw_scroll_manager scrollCanvas_scroll_manager offscreen_def used_canvas_def)
       (simp add: scroll_manager_def RenderContextManager_def pop_or_create_def)
qed

end
